theory Spec2Isabelle
  imports
    Main
    "HOL-Library.Char_ord"
    "HOL-Library.List_Lexorder"
    "HOL-Library.Product_Lexorder"
    "HOL-Library.AList"
begin

section \<open>Python strings and integers\<close>

text \<open>
  The script \<^verbatim>\<open>download_lorcanajson.py\<close> works on Python \<^verbatim>\<open>str\<close> and unbounded
  \<^verbatim>\<open>int\<close>. A \<^verbatim>\<open>str\<close> is modelled as \<^typ>\<open>string\<close> (a list of 8-bit characters, so
  the model covers ASCII text), an \<^verbatim>\<open>int\<close> as \<^typ>\<open>int\<close>. Strings are compared as
  Python compares them: lexicographically, character by character by code.
\<close>

text \<open>\<^verbatim>\<open>s.replace(c, r)\<close> for a one-character \<^verbatim>\<open>c\<close>.\<close>

definition replace_char :: "char \<Rightarrow> string \<Rightarrow> string \<Rightarrow> string" where
  "replace_char c r s = concat (map (\<lambda>x. if x = c then r else [x]) s)"

definition lower_char :: "char \<Rightarrow> char" where
  "lower_char c =
     (if CHR ''A'' \<le> c \<and> c \<le> CHR ''Z'' then char_of (of_char c + (32::nat)) else c)"

text \<open>\<^verbatim>\<open>s.lower()\<close>.\<close>

definition lower :: "string \<Rightarrow> string" where
  "lower s = map lower_char s"

text \<open>\<^verbatim>\<open>s.startswith(p)\<close>.\<close>

fun startswith :: "string \<Rightarrow> string \<Rightarrow> bool" where
  "startswith s [] = True"
| "startswith [] (p # ps) = False"
| "startswith (c # cs) (p # ps) = (c = p \<and> startswith cs ps)"

text \<open>\<^verbatim>\<open>sub in s\<close>.\<close>

fun contains :: "string \<Rightarrow> string \<Rightarrow> bool" where
  "contains sub [] = (sub = [])"
| "contains sub (c # cs) = (startswith (c # cs) sub \<or> contains sub cs)"

text \<open>
  \<^verbatim>\<open>int(s)\<close> on a string: surrounding whitespace is stripped, one sign may lead, and the
  rest is decimal digits in which single underscores may stand between digits. Any other
  text raises \<^verbatim>\<open>ValueError\<close>, which is the result \<^term>\<open>None\<close> here.
\<close>

definition is_space :: "char \<Rightarrow> bool" where
  "is_space c = (let n = (of_char c :: nat) in (9 \<le> n \<and> n \<le> 13) \<or> (28 \<le> n \<and> n \<le> 32))"

definition is_digit :: "char \<Rightarrow> bool" where
  "is_digit c = (CHR ''0'' \<le> c \<and> c \<le> CHR ''9'')"

definition digit_val :: "char \<Rightarrow> nat" where
  "digit_val c = of_char c - 48"

definition strip :: "string \<Rightarrow> string" where
  "strip s = rev (dropWhile is_space (rev (dropWhile is_space s)))"

fun digits_val :: "nat \<Rightarrow> string \<Rightarrow> nat option" where
  "digits_val acc [] = Some acc"
| "digits_val acc (c # cs) =
     (if is_digit c then digits_val (10 * acc + digit_val c) cs
      else if c = CHR ''_'' then
        (case cs of
           [] \<Rightarrow> None
         | d # ds \<Rightarrow> if is_digit d then digits_val acc cs else None)
      else None)"

definition unsigned_val :: "string \<Rightarrow> nat option" where
  "unsigned_val s =
     (case s of
        [] \<Rightarrow> None
      | c # cs \<Rightarrow> if is_digit c then digits_val 0 s else None)"

definition py_int :: "string \<Rightarrow> int option" where
  "py_int s =
     (case strip s of
        [] \<Rightarrow> None
      | c # cs \<Rightarrow>
          if c = CHR ''-'' then map_option (\<lambda>n. - int n) (unsigned_val cs)
          else if c = CHR ''+'' then map_option int (unsigned_val cs)
          else map_option int (unsigned_val (c # cs)))"

text \<open>\<^verbatim>\<open>str(n)\<close> of an integer: its decimal digits, after a minus sign when negative.\<close>

definition digit_char :: "nat \<Rightarrow> char" where
  "digit_char d = char_of (48 + d)"

fun nat_digits :: "nat \<Rightarrow> string" where
  "nat_digits n =
     (if n < 10 then [digit_char n] else nat_digits (n div 10) @ [digit_char (n mod 10)])"

declare nat_digits.simps [simp del]

definition str_int :: "int \<Rightarrow> string" where
  "str_int i = (if i < 0 then CHR ''-'' # nat_digits (nat (- i)) else nat_digits (nat i))"

text \<open>
  \<^verbatim>\<open>f"{n:03d}"\<close>: the decimal digits padded with zeros to three characters, the sign
  counted in the width and written before the zeros.
\<close>

definition pad_zero :: "nat \<Rightarrow> string \<Rightarrow> string" where
  "pad_zero w s = replicate (w - length s) (CHR ''0'') @ s"

definition fmt_03d :: "int \<Rightarrow> string" where
  "fmt_03d i =
     (if i < 0 then CHR ''-'' # pad_zero 2 (nat_digits (nat (- i)))
      else pad_zero 3 (nat_digits (nat i)))"

text \<open>Truthiness of an optional string: \<^verbatim>\<open>None\<close> and \<^verbatim>\<open>""\<close> are false.\<close>

definition str_truthy :: "string option \<Rightarrow> bool" where
  "str_truthy v = (case v of None \<Rightarrow> False | Some s \<Rightarrow> s \<noteq> [])"

text \<open>Truthiness of an optional integer: \<^verbatim>\<open>None\<close> and \<^verbatim>\<open>0\<close> are false.\<close>

definition int_truthy :: "int option \<Rightarrow> bool" where
  "int_truthy v = (case v of None \<Rightarrow> False | Some n \<Rightarrow> n \<noteq> 0)"

text \<open>\<^verbatim>\<open>d.get(key, default)\<close> on a key that may be missing.\<close>

definition get_default :: "'a option \<Rightarrow> 'a \<Rightarrow> 'a" where
  "get_default v d = (case v of None \<Rightarrow> d | Some x \<Rightarrow> x)"

section \<open>The tables\<close>

definition SET_CODE_MAP :: "(string \<times> string) list" where
  "SET_CODE_MAP =
     [(''The First Chapter'', ''TFC''),
      (''Rise of the Floodborn'', ''ROF''),
      (''Into the Inklands'', ''ITI''),
      ([CHR ''U'', CHR ''r'', CHR ''s'', CHR ''u'', CHR ''l'', CHR ''a'', CHR 0x27, CHR ''s'']
         @ '' Return'', ''TUR''),
      (''Shimmering Skies'', ''SSK''),
      (''Azurite Sea'', ''AZS''),
      (''Fabled'', ''FAB''),
      ([CHR ''A'', CHR ''r'', CHR ''c'', CHR ''h'', CHR ''a'', CHR ''z'', CHR ''i'', CHR ''a'',
        CHR 0x27, CHR ''s''] @ '' Island'', ''ARI''),
      (''Reign of Jafar'', ''ROJ''),
      (''Whispers in the Well'', ''WIW''),
      (''Promo Set 1'', ''P1''),
      (''Promo Set 2'', ''P2''),
      (''Challenge Promo'', ''CP''),
      (''D23 Collection'', ''D23'')]"

definition VARIANT_MAP :: "(string \<times> string) list" where
  "VARIANT_MAP =
     [(''normal'', ''Normal''),
      (''foil'', ''Foil''),
      (''enchanted'', ''Enchanted''),
      (''promo'', ''Promo''),
      (''borderless'', ''Borderless''),
      (''epic'', ''Epic''),
      (''iconic'', ''Iconic'')]"

section \<open>Raw records and canonical cards\<close>

text \<open>
  A raw record is the JSON object the catalog API returns for one card. A field is
  \<^term>\<open>None\<close> when its key is missing. Only the keys that the identity, the text and the
  image reference are built from are kept; the numeric and descriptive keys (cost,
  strength, type and so on) are copied through by the script and take part in nothing
  below.
\<close>

record raw_card =
  rc_set_name :: "string option"
  rc_set_code :: "string option"
  rc_rarity :: "string option"
  rc_collector_number :: "string option"
  rc_name :: "string option"
  rc_version :: "string option"
  rc_text :: "string option"
  rc_flavor_text :: "string option"
  rc_digital_large :: "string option"
  rc_digital_normal :: "string option"
  rc_digital_small :: "string option"
  rc_large :: "string option"
  rc_normal :: "string option"
  rc_small :: "string option"

record app_card =
  ac_id :: string
  ac_name :: string
  ac_setName :: string
  ac_cardText :: string
  ac_imageUrl :: string
  ac_variant :: string
  ac_cardNumber :: "int option"
  ac_uniqueId :: "string option"

text \<open>Lines 77 to 82: the set code, from the table or else as the record gives it.\<close>

definition set_code_of :: "raw_card \<Rightarrow> string" where
  "set_code_of crd =
     get_default (map_of SET_CODE_MAP (get_default (rc_set_name crd) []))
       (get_default (rc_set_code crd) [])"

text \<open>Lines 84 to 97: the variant, from the rarity and the set name.\<close>

definition variant_raw_of :: "string \<Rightarrow> string \<Rightarrow> string" where
  "variant_raw_of rarity_raw set_name =
     (if contains ''enchanted'' rarity_raw then ''enchanted''
      else if contains ''epic'' rarity_raw then ''epic''
      else if contains ''iconic'' rarity_raw then ''iconic''
      else if contains ''promo'' (lower set_name) \<or> contains ''promo'' rarity_raw then ''promo''
      else ''normal'')"

text \<open>Lines 99 to 107: the collector number, parsed when the text is not empty.\<close>

definition card_num_of :: "string \<Rightarrow> int option" where
  "card_num_of collector_number = (if collector_number \<noteq> [] then py_int collector_number else None)"

text \<open>Lines 109 to 112: the unique code.\<close>

definition unique_id_of :: "int option \<Rightarrow> string \<Rightarrow> string option" where
  "unique_id_of card_num set_code =
     (case card_num of
        None \<Rightarrow> None
      | Some n \<Rightarrow> if n \<noteq> 0 \<and> set_code \<noteq> [] then Some (set_code @ ''-'' @ fmt_03d n) else None)"

text \<open>Lines 114 to 121: the name with its version.\<close>

definition full_name_of :: "string \<Rightarrow> string option \<Rightarrow> string" where
  "full_name_of card_name version =
     (if str_truthy version then card_name @ '' - '' @ get_default version [] else card_name)"

text \<open>Lines 123 to 127: the card ID.\<close>

definition name_part_of :: "string \<Rightarrow> string" where
  "name_part_of full_name =
     replace_char (CHR 0x27) [] (replace_char (CHR ''-'') ''_'' (replace_char (CHR '' '') ''_'' full_name))"

definition card_id_of :: "string \<Rightarrow> int option \<Rightarrow> string \<Rightarrow> string \<Rightarrow> string" where
  "card_id_of set_name card_num full_name variant =
     replace_char (CHR '' '') ''_'' set_name @ ''_''
       @ str_int (if int_truthy card_num then get_default card_num 0 else 0) @ ''_''
       @ name_part_of full_name
       @ (if variant \<noteq> ''Normal'' then ''_'' @ variant else [])"

text \<open>Lines 129 to 138: the card text with the flavor text.\<close>

definition card_text_of :: "string \<Rightarrow> string option \<Rightarrow> string" where
  "card_text_of card_text flavor_text =
     (if str_truthy flavor_text then
        (if card_text \<noteq> [] then card_text @ [CHR 0x0A, CHR 0x0A] @ get_default flavor_text []
         else get_default flavor_text [])
      else card_text)"

text \<open>Python's \<^verbatim>\<open>a or b\<close> on optional strings.\<close>

definition or_str :: "string option \<Rightarrow> string option \<Rightarrow> string option" where
  "or_str a b = (if str_truthy a then a else b)"

text \<open>Lines 140 to 154: the image reference.\<close>

definition image_url_of :: "raw_card \<Rightarrow> string option \<Rightarrow> string \<Rightarrow> string \<Rightarrow> string option" where
  "image_url_of crd unique_id variant variant_raw =
     (let image_url = or_str (rc_digital_large crd) (or_str (rc_digital_normal crd) (rc_digital_small crd));
          image_url = (if \<not> str_truthy image_url
                       then or_str (rc_large crd) (or_str (rc_normal crd) (rc_small crd))
                       else image_url)
      in if \<not> str_truthy image_url \<and> str_truthy unique_id
         then Some (''local://'' @ get_default unique_id []
                      @ (if variant = ''Normal'' then [] else ''-'' @ variant_raw))
         else image_url)"

definition convert_card_to_app_format :: "raw_card \<Rightarrow> app_card" where
  "convert_card_to_app_format crd =
     (let set_name = get_default (rc_set_name crd) [];
          set_code = set_code_of crd;
          rarity_raw = lower (get_default (rc_rarity crd) []);
          variant_raw = variant_raw_of rarity_raw set_name;
          variant = get_default (map_of VARIANT_MAP variant_raw) ''Normal'';
          card_num = card_num_of (get_default (rc_collector_number crd) []);
          unique_id = unique_id_of card_num set_code;
          full_name = full_name_of (get_default (rc_name crd) []) (rc_version crd);
          card_id = card_id_of set_name card_num full_name variant;
          card_text = card_text_of (get_default (rc_text crd) []) (rc_flavor_text crd);
          image_url = image_url_of crd unique_id variant variant_raw
      in \<lparr> ac_id = card_id,
           ac_name = full_name,
           ac_setName = set_name,
           ac_cardText = card_text,
           ac_imageUrl = get_default image_url [],
           ac_variant = variant,
           ac_cardNumber = card_num,
           ac_uniqueId = unique_id \<rparr>)"

section \<open>The old snapshot\<close>

text \<open>
  A card of an old catalog file, as \<^verbatim>\<open>load_existing_cards\<close> and
  \<^verbatim>\<open>build_migration_map\<close> read it: the keys of the current format and those of the
  older one (\<^verbatim>\<open>Name\<close>, \<^verbatim>\<open>Set_Name\<close>, \<^verbatim>\<open>Unique_ID\<close>, \<^verbatim>\<open>Card_Num\<close>), each
  \<^term>\<open>None\<close> when missing.
\<close>

record stored_card =
  sc_id :: "string option"
  sc_name :: "string option"
  sc_Name :: "string option"
  sc_setName :: "string option"
  sc_Set_Name :: "string option"
  sc_uniqueId :: "string option"
  sc_Unique_ID :: "string option"
  sc_cardNumber :: "int option"
  sc_Card_Num :: "int option"

text \<open>A dictionary is true when it has a key.\<close>

definition dict_truthy :: "stored_card \<Rightarrow> bool" where
  "dict_truthy oc =
     ((sc_id oc, sc_name oc, sc_Name oc, sc_setName oc, sc_Set_Name oc, sc_uniqueId oc,
       sc_Unique_ID oc, sc_cardNumber oc, sc_Card_Num oc)
      \<noteq> (None, None, None, None, None, None, None, None, None))"

text \<open>What \<^verbatim>\<open>json.dump\<close> writes of a card and \<^verbatim>\<open>json.load\<close> reads back.\<close>

definition to_json :: "app_card \<Rightarrow> stored_card" where
  "to_json c =
     \<lparr> sc_id = Some (ac_id c),
       sc_name = Some (ac_name c),
       sc_Name = None,
       sc_setName = Some (ac_setName c),
       sc_Set_Name = None,
       sc_uniqueId = ac_uniqueId c,
       sc_Unique_ID = None,
       sc_cardNumber = ac_cardNumber c,
       sc_Card_Num = None \<rparr>"

type_synonym old_cards = "string \<rightharpoonup> stored_card"

definition uid_key :: "string \<Rightarrow> string" where
  "uid_key unique_id = ''uid:'' @ unique_id"

definition name_key :: "string \<Rightarrow> string \<Rightarrow> string" where
  "name_key card_name set_name = ''name:'' @ card_name @ ''|set:'' @ set_name"

definition num_key :: "int \<Rightarrow> string \<Rightarrow> string" where
  "num_key card_num set_name = ''num:'' @ str_int card_num @ ''|set:'' @ set_name"

text \<open>Lines 209 to 227: one card of an old file enters the index under up to three keys.\<close>

definition load_card :: "stored_card \<Rightarrow> old_cards \<Rightarrow> old_cards" where
  "load_card crd existing =
     (let card_name = get_default (or_str (sc_name crd) (Some (get_default (sc_Name crd) []))) [];
          set_name = get_default (or_str (sc_setName crd) (Some (get_default (sc_Set_Name crd) []))) [];
          unique_id = get_default (or_str (sc_uniqueId crd) (Some (get_default (sc_Unique_ID crd) []))) [];
          card_num = (if int_truthy (sc_cardNumber crd) then sc_cardNumber crd else sc_Card_Num crd)
      in if card_name = [] then existing
         else
           (let existing = (if unique_id \<noteq> [] then existing(uid_key unique_id \<mapsto> crd) else existing);
                existing = (if card_name \<noteq> [] \<and> set_name \<noteq> []
                            then existing(name_key card_name set_name \<mapsto> crd) else existing);
                existing = (if int_truthy card_num \<and> set_name \<noteq> []
                            then existing(num_key (get_default card_num 0) set_name \<mapsto> crd)
                            else existing)
            in existing))"

text \<open>
  The files of the data directory: a catalog file holds a list of cards, any other JSON
  file (the migration map) has no \<^verbatim>\<open>cards\<close> key and so gives the empty list.
\<close>

type_synonym disk = "string \<rightharpoonup> stored_card list"

text \<open>
  \<^verbatim>\<open>load_existing_cards\<close>: the files in the order \<^verbatim>\<open>os.listdir\<close> gives them, the cards
  of each in the file's order. A missing directory is the empty listing.
\<close>

definition load_existing_cards :: "string list \<Rightarrow> disk \<Rightarrow> old_cards" where
  "load_existing_cards listing files =
     fold (\<lambda>filename existing. fold load_card (get_default (files filename) []) existing)
       listing Map.empty"

section \<open>The migration map\<close>

record migration_entry =
  me_old_id :: string
  me_new_id :: string
  me_new_unique_id :: "string option"
  me_name :: string
  me_set :: string
  me_variant :: string
  me_match_method :: string

text \<open>
  The two lines every strategy ends with: look the key up, and take the ID of a card
  that was found. The state is the pair of the variables \<^verbatim>\<open>old_card\<close> and \<^verbatim>\<open>old_id\<close>.
\<close>

definition card_truthy :: "stored_card option \<Rightarrow> bool" where
  "card_truthy old_card = (case old_card of None \<Rightarrow> False | Some oc \<Rightarrow> dict_truthy oc)"

definition lookup_step ::
  "old_cards \<Rightarrow> string \<Rightarrow> stored_card option \<times> string option \<Rightarrow> stored_card option \<times> string option"
where
  "lookup_step old_cards key st =
     (let old_card = old_cards key
      in (old_card,
          case old_card of
            None \<Rightarrow> snd st
          | Some oc \<Rightarrow> if dict_truthy oc then sc_id oc else snd st))"

text \<open>Lines 246 to 268: the three strategies, one after the other.\<close>

definition find_old :: "old_cards \<Rightarrow> app_card \<Rightarrow> stored_card option \<times> string option" where
  "find_old old_cards new_card =
     (let new_unique_id = ac_uniqueId new_card;
          new_name = ac_name new_card;
          new_set = ac_setName new_card;
          new_num = ac_cardNumber new_card;
          st = (None, None);
          st = (if str_truthy new_unique_id
                then lookup_step old_cards (uid_key (get_default new_unique_id [])) st else st);
          st = (if \<not> card_truthy (fst st)
                then lookup_step old_cards (name_key new_name new_set) st else st);
          st = (if \<not> card_truthy (fst st) \<and> int_truthy new_num
                then lookup_step old_cards (num_key (get_default new_num 0) new_set) st else st)
      in st)"

text \<open>Lines 270 to 280: the entry one new card adds, under the key of the old ID.\<close>

definition match_method_of :: "old_cards \<Rightarrow> app_card \<Rightarrow> string" where
  "match_method_of old_cards new_card =
     (if str_truthy (ac_uniqueId new_card)
         \<and> old_cards (uid_key (get_default (ac_uniqueId new_card) [])) \<noteq> None
      then ''uniqueId'' else ''name+set'')"

definition entry_of :: "old_cards \<Rightarrow> app_card \<Rightarrow> (string \<times> migration_entry) option" where
  "entry_of old_cards new_card =
     (let old_id = snd (find_old old_cards new_card)
      in if str_truthy old_id
         then Some (get_default old_id [],
                \<lparr> me_old_id = get_default old_id [],
                  me_new_id = ac_id new_card,
                  me_new_unique_id = ac_uniqueId new_card,
                  me_name = ac_name new_card,
                  me_set = ac_setName new_card,
                  me_variant = ac_variant new_card,
                  me_match_method = match_method_of old_cards new_card \<rparr>)
         else None)"

text \<open>
  The migration map is a dictionary; it is kept as an association list in the order of
  first insertion, as Python keeps it, so that its length is the number of its keys.
\<close>

definition add_entry ::
  "old_cards \<Rightarrow> app_card \<Rightarrow> (string \<times> migration_entry) list \<Rightarrow> (string \<times> migration_entry) list"
where
  "add_entry old_cards new_card migration_map =
     (case entry_of old_cards new_card of
        None \<Rightarrow> migration_map
      | Some (old_id, e) \<Rightarrow> AList.update old_id e migration_map)"

definition build_migration_map ::
  "old_cards \<Rightarrow> app_card list \<Rightarrow> (string \<times> migration_entry) list" where
  "build_migration_map old_cards new_cards = fold (add_entry old_cards) new_cards []"

section \<open>The run\<close>

text \<open>Lines 369 to 383: the cards are grouped by set; a card with no set name is skipped.\<close>

type_synonym groups = "(string \<times> app_card list) list \<times> (string \<times> nat) list"

definition group_card :: "raw_card \<Rightarrow> groups \<Rightarrow> groups" where
  "group_card crd st =
     (let app_card = convert_card_to_app_format crd;
          set_name = ac_setName app_card
      in if set_name = [] then st
         else (AList.map_default set_name [app_card] (\<lambda>cs. cs @ [app_card]) (fst st),
               AList.map_default set_name 1 Suc (snd st)))"

definition group_cards :: "raw_card list \<Rightarrow> groups" where
  "group_cards all_cards_data = fold group_card all_cards_data ([], [])"

text \<open>Lines 401 to 408: the first card of each ID is kept.\<close>

fun dedupe_loop :: "app_card list \<Rightarrow> string set \<Rightarrow> app_card list \<Rightarrow> app_card list" where
  "dedupe_loop [] seen_ids unique_cards = unique_cards"
| "dedupe_loop (c # cs) seen_ids unique_cards =
     (if ac_id c \<notin> seen_ids
      then dedupe_loop cs (insert (ac_id c) seen_ids) (unique_cards @ [c])
      else dedupe_loop cs seen_ids unique_cards)"

definition dedupe :: "app_card list \<Rightarrow> app_card list" where
  "dedupe cards = dedupe_loop cards {} []"

text \<open>Line 411: the sort key. Python's sort is stable, as \<^const>\<open>sort_key\<close> is.\<close>

definition card_sort_key :: "app_card \<Rightarrow> int \<times> string" where
  "card_sort_key c =
     (if int_truthy (ac_cardNumber c) then get_default (ac_cardNumber c) 0 else 0, ac_variant c)"

record set_data =
  sd_setName :: string
  sd_setCode :: string
  sd_cardCount :: nat
  sd_cards :: "app_card list"

definition filename_of :: "string \<Rightarrow> string" where
  "filename_of set_name =
     replace_char (CHR 0x27) [] (replace_char (CHR '' '') ''_'' (lower set_name)) @ ''.json''"

text \<open>Lines 396 to 424: one catalog file per set, the sets in the order of their names.\<close>

definition write_set :: "string \<times> app_card list \<Rightarrow> string \<times> set_data" where
  "write_set p =
     (let set_name = fst p;
          set_code = get_default (map_of SET_CODE_MAP set_name) ''UNK'';
          unique_cards = sort_key card_sort_key (dedupe (snd p))
      in (filename_of set_name,
          \<lparr> sd_setName = set_name,
            sd_setCode = set_code,
            sd_cardCount = length unique_cards,
            sd_cards = unique_cards \<rparr>))"

definition write_sets :: "(string \<times> app_card list) list \<Rightarrow> (string \<times> set_data) list" where
  "write_sets cards_by_set = map write_set (sort_key fst cards_by_set)"

text \<open>Lines 445 to 467: the summary report.\<close>

record summary =
  sm_total_cards :: nat
  sm_sets_created :: nat
  sm_migration_mappings :: nat
  sm_variant_counts :: "(string \<times> nat) list"
  sm_missing_images :: nat

definition variant_counts_of :: "app_card list \<Rightarrow> (string \<times> nat) list" where
  "variant_counts_of all_new_cards =
     sort_key fst (fold (\<lambda>c counts. AList.map_default (ac_variant c) 1 Suc counts) all_new_cards [])"

definition summary_of ::
  "app_card list \<Rightarrow> (string \<times> app_card list) list \<Rightarrow> (string \<times> migration_entry) list \<Rightarrow> summary"
where
  "summary_of all_new_cards cards_by_set migration_map =
     \<lparr> sm_total_cards = length all_new_cards,
       sm_sets_created = length cards_by_set,
       sm_migration_mappings = length migration_map,
       sm_variant_counts = variant_counts_of all_new_cards,
       sm_missing_images =
         length (filter (\<lambda>c. ac_imageUrl c = [] \<or> startswith (ac_imageUrl c) ''local://'')
                   all_new_cards) \<rparr>"

text \<open>
  \<^verbatim>\<open>download_and_convert\<close>, from the old index and the fetched records on: what it
  writes and what it reports. A fetch that brought nothing ends the run at once.
\<close>

record run =
  run_set_counts :: "(string \<times> nat) list"
  run_files :: "(string \<times> set_data) list"
  run_all_new_cards :: "app_card list"
  run_migration_map :: "(string \<times> migration_entry) list"
  run_summary :: summary

definition download_and_convert :: "old_cards \<Rightarrow> raw_card list \<Rightarrow> run option" where
  "download_and_convert existing_cards all_cards_data =
     (if all_cards_data = [] then None
      else
        (let cards_by_set = fst (group_cards all_cards_data);
             set_counts = snd (group_cards all_cards_data);
             files = write_sets cards_by_set;
             all_new_cards = concat (map (\<lambda>f. sd_cards (snd f)) files);
             migration_map = build_migration_map existing_cards all_new_cards
         in Some \<lparr> run_set_counts = sort_key fst set_counts,
                   run_files = files,
                   run_all_new_cards = all_new_cards,
                   run_migration_map = migration_map,
                   run_summary = summary_of all_new_cards cards_by_set migration_map \<rparr>))"

text \<open>
  The data directory after the run: each catalog file written in turn (a later file of
  the same name replaces an earlier one), then \<^verbatim>\<open>migration_map.json\<close>, which holds no
  list of cards.
\<close>

definition disk_after :: "disk \<Rightarrow> run \<Rightarrow> disk" where
  "disk_after files r =
     (fold (\<lambda>f d. d(fst f \<mapsto> map to_json (sd_cards (snd f)))) (run_files r) files)
       (''migration_map.json'' \<mapsto> [])"

section \<open>The reconciliation cascade as the specification words it\<close>

text \<open>
  A lookup is a hit when it finds a card (a dictionary with at least one key). The three
  strategies are tried in order, and the first hit is the match.
\<close>

definition hit :: "stored_card option \<Rightarrow> stored_card option" where
  "hit old_card = (if card_truthy old_card then old_card else None)"

definition strategy_uniqueCode :: "old_cards \<Rightarrow> app_card \<Rightarrow> stored_card option" where
  "strategy_uniqueCode old_cards c =
     (case ac_uniqueId c of
        None \<Rightarrow> None
      | Some u \<Rightarrow> if u = [] then None else hit (old_cards (uid_key u)))"

definition strategy_nameAndSet :: "old_cards \<Rightarrow> app_card \<Rightarrow> stored_card option" where
  "strategy_nameAndSet old_cards c = hit (old_cards (name_key (ac_name c) (ac_setName c)))"

definition strategy_numberAndSet :: "old_cards \<Rightarrow> app_card \<Rightarrow> stored_card option" where
  "strategy_numberAndSet old_cards c =
     (case ac_cardNumber c of
        None \<Rightarrow> None
      | Some n \<Rightarrow> if n = 0 then None else hit (old_cards (num_key n (ac_setName c))))"



section \<open>The groups and the sort order as the specification words them\<close>

text \<open>The converted cards of the records of one set, in the order of the input.\<close>

definition cards_of_set :: "raw_card list \<Rightarrow> string \<Rightarrow> app_card list" where
  "cards_of_set raws s = filter (\<lambda>c. ac_setName c = s) (map convert_card_to_app_format raws)"

text \<open>The set names of the input that are not empty.\<close>

definition set_names :: "raw_card list \<Rightarrow> string set" where
  "set_names raws = ac_setName ` convert_card_to_app_format ` set raws - {[]}"

text \<open>
  The sort key of the specification: the collector number, an absent one after every
  present one, then the variant.
\<close>

definition spec_sort_key :: "app_card \<Rightarrow> (bool \<times> int) \<times> string" where
  "spec_sort_key c = ((ac_cardNumber c = None, get_default (ac_cardNumber c) 0), ac_variant c)"


text \<open>The collector number as the card ID shows it: 0 when it is absent.\<close>

definition number_or_zero :: "int option \<Rightarrow> int" where
  "number_or_zero card_num = (case card_num of None \<Rightarrow> 0 | Some n \<Rightarrow> n)"

text \<open>
  The round trip: a first run from an empty data directory, then a second run on the same
  records whose old snapshot is the directory the first run left, listed in the given
  order.
\<close>

definition rerun :: "string list \<Rightarrow> raw_card list \<Rightarrow> run option" where
  "rerun listing raws =
     (case download_and_convert Map.empty raws of
        None \<Rightarrow> None
      | Some r \<Rightarrow>
          download_and_convert (load_existing_cards listing (disk_after Map.empty r)) raws)"

text \<open>Of each entry of a migration map: its key, its new ID and its match method.\<close>

definition methods_of :: "run \<Rightarrow> (string \<times> string \<times> string) list" where
  "methods_of r = map (\<lambda>p. (fst p, me_new_id (snd p), me_match_method (snd p))) (run_migration_map r)"

section \<open>Example records\<close>

text \<open>A raw record with a name, a set name, a collector number and a rarity; set code SA.\<close>

definition raw_example :: "string \<Rightarrow> string \<Rightarrow> string option \<Rightarrow> string \<Rightarrow> raw_card" where
  "raw_example nm st num rar =
     \<lparr> rc_set_name = Some st, rc_set_code = Some ''SA'', rc_rarity = Some rar,
       rc_collector_number = num, rc_name = Some nm, rc_version = None, rc_text = None,
       rc_flavor_text = None, rc_digital_large = None, rc_digital_normal = None,
       rc_digital_small = None, rc_large = None, rc_normal = None, rc_small = None \<rparr>"

text \<open>An old card of which only the ID is known.\<close>

definition stored_example :: "string \<Rightarrow> stored_card" where
  "stored_example i =
     \<lparr> sc_id = Some i, sc_name = None, sc_Name = None, sc_setName = None, sc_Set_Name = None,
       sc_uniqueId = None, sc_Unique_ID = None, sc_cardNumber = None, sc_Card_Num = None \<rparr>"


text \<open>An old index that knows a card of SetA only by its number 5.\<close>

definition old_num5 :: old_cards where
  "old_num5 = [num_key 5 ''SetA'' \<mapsto> stored_example ''SetA_5_Anna'']"

text \<open>
  Three records of SetA: Elsa, number 5, twice (with different texts), and between them
  Anna with no number.
\<close>

definition raws_dup :: "raw_card list" where
  "raws_dup =
     [(raw_example ''Elsa'' ''SetA'' (Some ''5'') ''Common'') \<lparr> rc_text := Some ''first'' \<rparr>,
      raw_example ''Anna'' ''SetA'' None ''Common'',
      (raw_example ''Elsa'' ''SetA'' (Some ''5'') ''Common'') \<lparr> rc_text := Some ''second'' \<rparr>]"


definition card_anna :: app_card where
  "card_anna =
     \<lparr> ac_id = ''SetA_0_Anna'', ac_name = ''Anna'', ac_setName = ''SetA'', ac_cardText = [],
       ac_imageUrl = [], ac_variant = ''Normal'', ac_cardNumber = None, ac_uniqueId = None \<rparr>"

definition card_elsa :: app_card where
  "card_elsa =
     \<lparr> ac_id = ''SetA_5_Elsa'', ac_name = ''Elsa'', ac_setName = ''SetA'',
       ac_cardText = ''first'', ac_imageUrl = ''local://SA-005'', ac_variant = ''Normal'',
       ac_cardNumber = Some 5, ac_uniqueId = Some ''SA-005'' \<rparr>"

text \<open>The one catalog file that both lists of records give.\<close>

definition file_seta :: "string \<times> set_data" where
  "file_seta =
     (''seta.json'',
      \<lparr> sd_setName = ''SetA'', sd_setCode = ''UNK'', sd_cardCount = 2,
        sd_cards = [card_anna, card_elsa] \<rparr>)"



text \<open>Two records of SetA with the numbers 5 and 7.\<close>

definition raws_two :: "raw_card list" where
  "raws_two =
     [raw_example ''Elsa'' ''SetA'' (Some ''5'') ''Common'',
      raw_example ''Anna'' ''SetA'' (Some ''7'') ''Common'']"

definition card_elsa5 :: app_card where
  "card_elsa5 =
     \<lparr> ac_id = ''SetA_5_Elsa'', ac_name = ''Elsa'', ac_setName = ''SetA'', ac_cardText = [],
       ac_imageUrl = ''local://SA-005'', ac_variant = ''Normal'', ac_cardNumber = Some 5,
       ac_uniqueId = Some ''SA-005'' \<rparr>"

definition card_anna7 :: app_card where
  "card_anna7 =
     \<lparr> ac_id = ''SetA_7_Anna'', ac_name = ''Anna'', ac_setName = ''SetA'', ac_cardText = [],
       ac_imageUrl = ''local://SA-007'', ac_variant = ''Normal'', ac_cardNumber = Some 7,
       ac_uniqueId = Some ''SA-007'' \<rparr>"

text \<open>The data directory after a run that wrote SetA's catalog.\<close>

definition listing_seta :: "string list" where
  "listing_seta = [''migration_map.json'', ''seta.json'']"

section \<open>The variant\<close>

lemma ac_variant_convert:
  "ac_variant (convert_card_to_app_format crd) =
     get_default (map_of VARIANT_MAP
       (variant_raw_of (lower (get_default (rc_rarity crd) [])) (get_default (rc_set_name crd) [])))
       ''Normal''"
  by (simp add: convert_card_to_app_format_def Let_def)

lemma variant_of_raw:
  "get_default (map_of VARIANT_MAP (variant_raw_of r s)) ''Normal''
     \<in> {''Normal'', ''Enchanted'', ''Epic'', ''Iconic'', ''Promo''}"
  by (simp add: variant_raw_of_def VARIANT_MAP_def get_default_def)

text \<open>
  C10. Whatever the raw record, the variant of the converted card is one of Normal,
  Enchanted, Epic, Iconic and Promo; the tags Foil and Borderless of the variant table
  are never produced.
\<close>

theorem variant_one_of_five:
  "ac_variant (convert_card_to_app_format crd)
     \<in> {''Normal'', ''Enchanted'', ''Epic'', ''Iconic'', ''Promo''}
   \<and> ac_variant (convert_card_to_app_format crd) \<noteq> ''Foil''
   \<and> ac_variant (convert_card_to_app_format crd) \<noteq> ''Borderless''"
proof -
  have "ac_variant (convert_card_to_app_format crd)
          \<in> {''Normal'', ''Enchanted'', ''Epic'', ''Iconic'', ''Promo''}"
    unfolding ac_variant_convert by (rule variant_of_raw)
  then show ?thesis by auto
qed

section \<open>The unique code\<close>

lemma ac_uniqueId_convert:
  "ac_uniqueId (convert_card_to_app_format crd) =
     unique_id_of (ac_cardNumber (convert_card_to_app_format crd)) (set_code_of crd)"
  by (simp add: convert_card_to_app_format_def Let_def)

lemma lookup_step_cong: "old k = old' k \<Longrightarrow> lookup_step old k st = lookup_step old' k st"
  by (simp add: lookup_step_def)

lemma entry_of_without_uid:
  assumes "\<forall>k. \<not> startswith k ''uid:'' \<longrightarrow> old k = old' k" and "ac_uniqueId c = None"
  shows "entry_of old c = entry_of old' c"
proof -
  have n: "lookup_step old (name_key a b) st = lookup_step old' (name_key a b) st" for a b st
    using assms(1) by (intro lookup_step_cong) (simp add: name_key_def)
  have m: "lookup_step old (num_key a b) st = lookup_step old' (num_key a b) st" for a b st
    using assms(1) by (intro lookup_step_cong) (simp add: num_key_def)
  have fo: "find_old old c = find_old old' c"
    using assms(2) by (simp add: find_old_def Let_def str_truthy_def n m)
  have mm: "match_method_of old c = match_method_of old' c"
    using assms(2) by (simp add: match_method_of_def str_truthy_def)
  show ?thesis
    unfolding entry_of_def fo mm by (rule refl)
qed

text \<open>
  C5, as the code has it. For a record whose set code is not empty: when the parsed
  collector number is present and not zero, the unique code is the set code, a hyphen and
  the number padded to three digits; the unique code is absent exactly when the number is
  absent or zero; and a card with no unique code is matched without any look at the
  entries stored under a unique code, so that two old indexes that differ only there give
  it the same entry.
\<close>

theorem unique_code_when_nonzero:
  assumes "set_code_of crd \<noteq> []"
  shows "(\<forall>n. ac_cardNumber (convert_card_to_app_format crd) = Some n \<and> n \<noteq> 0 \<longrightarrow>
            ac_uniqueId (convert_card_to_app_format crd)
              = Some (set_code_of crd @ ''-'' @ fmt_03d n))
         \<and> (ac_uniqueId (convert_card_to_app_format crd) = None \<longleftrightarrow>
              ac_cardNumber (convert_card_to_app_format crd) = None
              \<or> ac_cardNumber (convert_card_to_app_format crd) = Some 0)
         \<and> (\<forall>old old'. ac_uniqueId (convert_card_to_app_format crd) = None
               \<and> (\<forall>k. \<not> startswith k ''uid:'' \<longrightarrow> old k = old' k) \<longrightarrow>
               entry_of old (convert_card_to_app_format crd)
                 = entry_of old' (convert_card_to_app_format crd))"
  using assms entry_of_without_uid
  by (auto simp add: ac_uniqueId_convert unique_id_of_def split: option.splits)

text \<open>
  The witness: the record Elsa, number 7, of SetA with set code SA has the unique code
  SA-007; the record Anna of the same set with no number has none, and an old index that
  holds a card under the unique code SA-001 only gives her the same entry as the empty
  index does.
\<close>

theorem unique_code_when_nonzero_witness:
  "set_code_of (raw_example ''Elsa'' ''SetA'' (Some ''7'') ''Common'') \<noteq> []
   \<and> ac_cardNumber (convert_card_to_app_format (raw_example ''Elsa'' ''SetA'' (Some ''7'') ''Common''))
       = Some 7
   \<and> ac_uniqueId (convert_card_to_app_format (raw_example ''Elsa'' ''SetA'' (Some ''7'') ''Common''))
       = Some ''SA-007''
   \<and> ac_uniqueId (convert_card_to_app_format (raw_example ''Anna'' ''SetA'' None ''Common'')) = None
   \<and> entry_of [uid_key ''SA-001'' \<mapsto> stored_example ''OldA'']
         (convert_card_to_app_format (raw_example ''Anna'' ''SetA'' None ''Common''))
       = entry_of Map.empty (convert_card_to_app_format (raw_example ''Anna'' ''SetA'' None ''Common''))"
proof -
  let ?e = "raw_example ''Elsa'' ''SetA'' (Some ''7'') ''Common''"
  let ?a = "raw_example ''Anna'' ''SetA'' None ''Common''"
  have h1: "set_code_of ?e \<noteq> []" by code_simp
  have h2: "set_code_of ?a \<noteq> []" by code_simp
  have n: "ac_cardNumber (convert_card_to_app_format ?e) = Some 7" by code_simp
  have f: "set_code_of ?e @ ''-'' @ fmt_03d 7 = ''SA-007''" by code_simp
  have u: "ac_uniqueId (convert_card_to_app_format ?a) = None" by code_simp
  have k: "\<forall>k. \<not> startswith k ''uid:'' \<longrightarrow>
             [uid_key ''SA-001'' \<mapsto> stored_example ''OldA''] k = Map.empty k"
    by (auto simp add: uid_key_def)
  from unique_code_when_nonzero [OF h1] n f
  have a: "ac_uniqueId (convert_card_to_app_format ?e) = Some ''SA-007''" by simp
  note t = unique_code_when_nonzero [OF h2, THEN conjunct2, THEN conjunct2, rule_format]
  have b: "entry_of [uid_key ''SA-001'' \<mapsto> stored_example ''OldA''] (convert_card_to_app_format ?a)
             = entry_of Map.empty (convert_card_to_app_format ?a)"
    by (rule t, intro conjI, rule u, rule k)
  from h1 n a u b show ?thesis by blast
qed

text \<open>
  The claim as it was stated fails at zero: the record Elsa, number 0, of SetA with set
  code SA has the parsed number 0 and no unique code.
\<close>

theorem unique_code_zero_counterexample:
  "ac_cardNumber (convert_card_to_app_format (raw_example ''Elsa'' ''SetA'' (Some ''0'') ''Common''))
     = Some 0
   \<and> set_code_of (raw_example ''Elsa'' ''SetA'' (Some ''0'') ''Common'') = ''SA''
   \<and> ac_uniqueId (convert_card_to_app_format (raw_example ''Elsa'' ''SetA'' (Some ''0'') ''Common''))
     = None"
  by code_simp

section \<open>The order of the strategies\<close>


lemma find_old_uid_hit:
  assumes "ac_uniqueId c = Some u" "u \<noteq> []" "old (uid_key u) = Some o1" "dict_truthy o1"
  shows "find_old old c = (Some o1, sc_id o1)"
  using assms
  by (simp add: find_old_def lookup_step_def Let_def str_truthy_def get_default_def card_truthy_def)



section \<open>The match method\<close>

text \<open>
  C4. The new card Elsa, number 5, of SetA meets an old index that knows SetA's number
  5 only: the unique code and the name find nothing, the number finds the old card, and
  the entry is labelled name+set.
\<close>

theorem match_method_number_labelled_name:
  "strategy_uniqueCode old_num5
       (convert_card_to_app_format (raw_example ''Elsa'' ''SetA'' (Some ''5'') ''Common'')) = None
   \<and> strategy_nameAndSet old_num5
       (convert_card_to_app_format (raw_example ''Elsa'' ''SetA'' (Some ''5'') ''Common'')) = None
   \<and> strategy_numberAndSet old_num5
       (convert_card_to_app_format (raw_example ''Elsa'' ''SetA'' (Some ''5'') ''Common''))
     = Some (stored_example ''SetA_5_Anna'')
   \<and> entry_of old_num5
       (convert_card_to_app_format (raw_example ''Elsa'' ''SetA'' (Some ''5'') ''Common''))
     = Some (''SetA_5_Anna'',
         \<lparr> me_old_id = ''SetA_5_Anna'', me_new_id = ''SetA_5_Elsa'',
           me_new_unique_id = Some ''SA-005'', me_name = ''Elsa'', me_set = ''SetA'',
           me_variant = ''Normal'', me_match_method = ''name+set'' \<rparr>)"
  by code_simp

section \<open>Grouping, deduplication and the catalogs\<close>

lemma map_of_group_card:
  "map_of (fst (group_card r st)) s =
     (if s \<noteq> [] \<and> ac_setName (convert_card_to_app_format r) = s
      then Some (get_default (map_of (fst st) s) [] @ [convert_card_to_app_format r])
      else map_of (fst st) s)"
  by (auto simp add: group_card_def Let_def map_of_map_default get_default_def split: option.splits)

lemma map_of_fold_group:
  "map_of (fst (fold group_card raws st)) s =
     (if s = [] \<or> cards_of_set raws s = [] then map_of (fst st) s
      else Some (get_default (map_of (fst st) s) [] @ cards_of_set raws s))"
proof (induction raws arbitrary: st)
  case Nil
  then show ?case by (simp add: cards_of_set_def)
next
  case (Cons r rs)
  show ?case
    by (simp add: Cons.IH map_of_group_card) (auto simp add: cards_of_set_def get_default_def)
qed

lemma distinct_group_card:
  "distinct (map fst (fst st)) \<Longrightarrow> distinct (map fst (fst (group_card r st)))"
  by (simp add: group_card_def Let_def distinct_map_default)

lemma distinct_fold_group:
  "distinct (map fst (fst st)) \<Longrightarrow> distinct (map fst (fst (fold group_card raws st)))"
  by (induction raws arbitrary: st) (simp_all add: distinct_group_card)

lemma map_of_group_cards:
  "map_of (fst (group_cards raws)) s =
     (if s \<in> set_names raws then Some (cards_of_set raws s) else None)"
proof -
  have "cards_of_set raws s = [] \<longleftrightarrow> s \<notin> ac_setName ` convert_card_to_app_format ` set raws"
    by (auto simp add: cards_of_set_def filter_empty_conv)
  then show ?thesis
    by (auto simp add: group_cards_def map_of_fold_group set_names_def get_default_def)
qed

lemma distinct_group_cards: "distinct (map fst (fst (group_cards raws)))"
  by (simp add: group_cards_def distinct_fold_group)

lemma keys_group_cards: "fst ` set (fst (group_cards raws)) = set_names raws"
proof -
  have "fst ` set (fst (group_cards raws)) = dom (map_of (fst (group_cards raws)))"
    by (simp add: dom_map_of_conv_image_fst)
  also have "\<dots> = set_names raws"
    by (auto simp add: map_of_group_cards dom_def)
  finally show ?thesis .
qed

lemma sort_key_fst_alist:
  fixes xs :: "('k::linorder \<times> 'v) list"
  assumes "distinct (map fst xs)"
  shows "sort_key fst xs = map (\<lambda>k. (k, the (map_of xs k))) (sorted_list_of_set (fst ` set xs))"
proof -
  let ?ys = "sort_key fst xs"
  have d: "distinct (map fst ?ys)"
    using assms by (simp add: distinct_map)
  have "sorted (map fst ?ys)" by simp
  with d have k: "map fst ?ys = sorted_list_of_set (fst ` set xs)"
    by (metis List.finite_set image_set set_sort sorted_list_of_set.idem_if_sorted_distinct)
  have "p = (fst p, the (map_of xs (fst p)))" if "p \<in> set ?ys" for p
  proof -
    from that have "p \<in> set xs" by simp
    with assms have "map_of xs (fst p) = Some (snd p)" by simp
    then show ?thesis by simp
  qed
  then have "map (\<lambda>p. (fst p, the (map_of xs (fst p)))) ?ys = ?ys"
    by (intro map_idI) simp
  then have "?ys = map (\<lambda>p. (fst p, the (map_of xs (fst p)))) ?ys"
    by (rule sym)
  also have "\<dots> = map (\<lambda>k. (k, the (map_of xs k))) (map fst ?ys)"
    by (simp add: comp_def)
  finally show ?thesis by (simp only: k)
qed

lemma write_sets_group_cards:
  "write_sets (fst (group_cards raws)) =
     map (\<lambda>s. write_set (s, cards_of_set raws s)) (sorted_list_of_set (set_names raws))"
proof -
  have "sort_key fst (fst (group_cards raws)) =
          map (\<lambda>s. (s, cards_of_set raws s)) (sorted_list_of_set (set_names raws))"
    unfolding sort_key_fst_alist [OF distinct_group_cards] keys_group_cards
    by (rule map_cong) (auto simp add: map_of_group_cards set_names_def)
  then show ?thesis by (simp add: write_sets_def comp_def)
qed

lemma dedupe_loop_acc: "dedupe_loop cs seen acc = acc @ dedupe_loop cs seen []"
proof (induction cs arbitrary: seen acc)
  case Nil
  then show ?case by simp
next
  case (Cons c cs)
  show ?case
    using Cons.IH [of "insert (ac_id c) seen" "acc @ [c]"] Cons.IH [of "insert (ac_id c) seen" "[c]"]
      Cons.IH [of seen acc]
    by simp
qed

lemma dedupe_loop_Cons:
  "dedupe_loop (c # cs) seen [] =
     (if ac_id c \<notin> seen then c # dedupe_loop cs (insert (ac_id c) seen) []
      else dedupe_loop cs seen [])"
  using dedupe_loop_acc [of cs "insert (ac_id c) seen" "[c]"] by simp

lemma set_dedupe_loop:
  "set (dedupe_loop cs seen []) =
     {c \<in> set cs. ac_id c \<notin> seen \<and> find (\<lambda>x. ac_id x = ac_id c) cs = Some c}"
proof (induction cs arbitrary: seen)
  case Nil
  then show ?case by simp
next
  case (Cons c cs)
  show ?case
    unfolding dedupe_loop_Cons by (auto simp add: Cons.IH)
qed



lemma set_dedupe:
  "set (dedupe cs) = {c \<in> set cs. find (\<lambda>x. ac_id x = ac_id c) cs = Some c}"
  by (simp add: dedupe_def set_dedupe_loop)



lemma run_files_closed_form:
  assumes "download_and_convert ex raws = Some r"
  shows "run_files r =
           map (\<lambda>s. write_set (s, cards_of_set raws s)) (sorted_list_of_set (set_names raws))"
  using assms
  by (auto simp add: download_and_convert_def Let_def write_sets_group_cards split: if_splits)

lemma finite_set_names: "finite (set_names raws)"
  by (simp add: set_names_def)

lemma run_file_cases:
  assumes "download_and_convert ex raws = Some r" and "f \<in> set (run_files r)"
  shows "sd_setName (snd f) \<in> set_names raws
         \<and> sd_cards (snd f) = sort_key card_sort_key (dedupe (cards_of_set raws (sd_setName (snd f))))"
  using assms(2) unfolding run_files_closed_form [OF assms(1)]
  by (auto simp add: write_set_def Let_def finite_set_names)

lemma run_files_raws_dup:
  "map_option run_files (download_and_convert Map.empty raws_dup) = Some [file_seta]"
  by code_simp


text \<open>
  C7, as the code has it. The cards of every catalog file are in ascending order of the
  pair of collector number and variant, where an absent collector number counts as 0
  (before every positive number); cards of equal keys keep the order in which the
  deduplication left them.
\<close>

theorem catalog_sorted:
  assumes "download_and_convert ex raws = Some r" and "f \<in> set (run_files r)"
  shows "sorted (map card_sort_key (sd_cards (snd f)))
         \<and> (\<forall>k. filter (\<lambda>c. card_sort_key c = k) (sd_cards (snd f))
                 = filter (\<lambda>c. card_sort_key c = k)
                     (dedupe (cards_of_set raws (sd_setName (snd f)))))
         \<and> (\<forall>c. card_sort_key c
                 = (case ac_cardNumber c of None \<Rightarrow> 0 | Some n \<Rightarrow> n, ac_variant c))"
proof -
  have k: "\<forall>c. card_sort_key c = (case ac_cardNumber c of None \<Rightarrow> 0 | Some n \<Rightarrow> n, ac_variant c)"
    by (simp add: card_sort_key_def int_truthy_def get_default_def split: option.splits)
  have c: "sd_cards (snd f) = sort_key card_sort_key (dedupe (cards_of_set raws (sd_setName (snd f))))"
    using run_file_cases [OF assms] by simp
  have s: "sorted (map card_sort_key (sd_cards (snd f)))"
    unfolding c by (rule sorted_sort_key)
  have t: "\<forall>k. filter (\<lambda>c. card_sort_key c = k) (sd_cards (snd f))
                 = filter (\<lambda>c. card_sort_key c = k)
                     (dedupe (cards_of_set raws (sd_setName (snd f))))"
    unfolding c by (simp add: sort_key_stable)
  from s t k show ?thesis by (intro conjI)
qed

text \<open>
  The witness: the records \<^const>\<open>raws_dup\<close> give the catalog \<^const>\<open>file_seta\<close>, whose
  keys are in order: Anna, with no number, has the key 0 and stands before Elsa, number 5.
\<close>

theorem catalog_sorted_witness:
  "map_option run_files (download_and_convert Map.empty raws_dup) = Some [file_seta]
   \<and> sorted (map card_sort_key (sd_cards (snd file_seta)))
   \<and> map card_sort_key (sd_cards (snd file_seta)) = [(0, ''Normal''), (5, ''Normal'')]"
proof -
  from run_files_raws_dup obtain r
    where r: "download_and_convert Map.empty raws_dup = Some r" and f: "run_files r = [file_seta]"
    by auto
  from f have m: "file_seta \<in> set (run_files r)" by simp
  have k: "map card_sort_key (sd_cards (snd file_seta)) = [(0, ''Normal''), (5, ''Normal'')]"
    by code_simp
  from catalog_sorted [OF r m] have "sorted (map card_sort_key (sd_cards (snd file_seta)))"
    by (rule conjunct1)
  with run_files_raws_dup k show ?thesis by (intro conjI)
qed

text \<open>
  The claim as it was stated fails: in the catalog that \<^const>\<open>raws_dup\<close> gives, Anna,
  whose number is absent, stands before Elsa, number 5, so the catalog is not in the
  order that puts an absent number last.
\<close>

theorem absent_number_first_counterexample:
  "map_option run_files (download_and_convert Map.empty raws_dup) = Some [file_seta]
   \<and> map spec_sort_key (sd_cards (snd file_seta))
       = [((True, 0), ''Normal''), ((False, 5), ''Normal'')]
   \<and> \<not> sorted (map spec_sort_key (sd_cards (snd file_seta)))"
  by code_simp






section \<open>The summary\<close>





section \<open>The card ID\<close>

lemma of_char_digit_char: "d < 10 \<Longrightarrow> of_char (digit_char d) = 48 + d"
  by (simp add: digit_char_def)

lemma digit_val_digit_char: "d < 10 \<Longrightarrow> digit_val (digit_char d) = d"
  by (simp add: digit_val_def of_char_digit_char)

lemma digit_char_not_sep: "d < 10 \<Longrightarrow> digit_char d \<noteq> CHR ''_'' \<and> digit_char d \<noteq> CHR ''-''"
proof -
  assume d: "d < 10"
  have "(of_char (digit_char d) :: nat) \<noteq> of_char (CHR ''_'')"
    using d by (simp add: of_char_digit_char)
  moreover have "(of_char (digit_char d) :: nat) \<noteq> of_char (CHR ''-'')"
    using d by (simp add: of_char_digit_char)
  ultimately show ?thesis by auto
qed

lemma nat_digits_chars: "c \<in> set (nat_digits n) \<Longrightarrow> c \<noteq> CHR ''_'' \<and> c \<noteq> CHR ''-''"
proof (induction n rule: nat_digits.induct)
  case (1 n)
  show ?case
  proof (cases "n < 10")
    case True
    with "1.prems" show ?thesis
      by (simp add: nat_digits.simps [of n] digit_char_not_sep)
  next
    case False
    with "1.prems" have "c \<in> set (nat_digits (n div 10)) \<or> c = digit_char (n mod 10)"
      by (auto simp add: nat_digits.simps [of n])
    with False "1.IH" show ?thesis
      by (auto simp add: digit_char_not_sep)
  qed
qed

lemma nat_digits_not_Nil: "nat_digits n \<noteq> []"
  by (simp add: nat_digits.simps [of n])

lemma nat_digits_value: "foldl (\<lambda>a c. 10 * a + digit_val c) 0 (nat_digits n) = n"
proof (induction n rule: nat_digits.induct)
  case (1 n)
  show ?case
  proof (cases "n < 10")
    case True
    then show ?thesis
      by (simp add: nat_digits.simps [of n] digit_val_digit_char)
  next
    case False
    with "1.IH" show ?thesis
      by (simp add: nat_digits.simps [of n] digit_val_digit_char)
  qed
qed

lemma nat_digits_inj: "nat_digits m = nat_digits n \<Longrightarrow> m = n"
  by (metis nat_digits_value)

lemma str_int_chars: "CHR ''_'' \<notin> set (str_int i)"
  using nat_digits_chars by (auto simp add: str_int_def)

lemma str_int_inj: "str_int i = str_int j \<Longrightarrow> i = j"
proof -
  assume e: "str_int i = str_int j"
  have h: "hd (nat_digits n) \<noteq> CHR ''-''" for n
    using nat_digits_chars [of "hd (nat_digits n)" n] nat_digits_not_Nil [of n] by simp
  have n: "CHR ''-'' # xs \<noteq> nat_digits n" for xs n
    using h [of n] by (cases "nat_digits n") auto
  show "i = j"
  proof (cases "i < 0")
    case True
    show ?thesis
    proof (cases "j < 0")
      case j: True
      with True e have "nat (- i) = nat (- j)"
        by (auto simp add: str_int_def dest: nat_digits_inj)
      with True j show ?thesis by simp
    next
      case False
      with True e n show ?thesis by (simp add: str_int_def)
    qed
  next
    case False
    show ?thesis
    proof (cases "j < 0")
      case True
      with False e n [of "nat_digits (nat (- j))" "nat i"] show ?thesis by (simp add: str_int_def)
    next
      case j: False
      with False e have "nat i = nat j"
        by (auto simp add: str_int_def dest: nat_digits_inj)
      with False j show ?thesis by simp
    qed
  qed
qed

lemma takeWhile_separator: "c \<notin> set x \<Longrightarrow> takeWhile (\<lambda>a. a \<noteq> c) (x @ c # p) = x"
  by (induction x) auto

lemma split_at_separator:
  assumes "c \<notin> set x" and "c \<notin> set y" and "x @ c # p = y @ c # q"
  shows "x = y \<and> p = q"
proof -
  have "takeWhile (\<lambda>a. a \<noteq> c) (x @ c # p) = x"
    using assms(1) by (rule takeWhile_separator)
  moreover have "takeWhile (\<lambda>a. a \<noteq> c) (y @ c # q) = y"
    using assms(2) by (rule takeWhile_separator)
  ultimately have "x = y" using assms(3) by simp
  with assms(3) show ?thesis by simp
qed

lemma card_id_of_eq_iff:
  "card_id_of s n1 nm1 v = card_id_of s n2 nm2 v \<longleftrightarrow>
     number_or_zero n1 = number_or_zero n2 \<and> name_part_of nm1 = name_part_of nm2"
proof -
  have k: "(if int_truthy n then get_default n 0 else 0) = number_or_zero n" for n
    by (simp add: int_truthy_def get_default_def number_or_zero_def split: option.splits)
  have "str_int a @ CHR ''_'' # p = str_int b @ CHR ''_'' # q \<longleftrightarrow> a = b \<and> p = q" for a b p q
    using split_at_separator [OF str_int_chars str_int_chars, of a p b q] str_int_inj [of a b]
    by auto
  then show ?thesis
    by (simp add: card_id_of_def k)
qed

lemma ac_id_convert:
  "ac_id (convert_card_to_app_format crd) =
     card_id_of (ac_setName (convert_card_to_app_format crd))
       (ac_cardNumber (convert_card_to_app_format crd))
       (ac_name (convert_card_to_app_format crd))
       (ac_variant (convert_card_to_app_format crd))"
  by (simp add: convert_card_to_app_format_def Let_def)

text \<open>
  C2, as the code has it. The card ID is a function of the name, the set name, the
  collector number and the variant: records that agree in all four get the same ID. It is
  not injective. For two records of the same set and the same variant the IDs are equal
  exactly when the collector numbers agree, an absent number read as 0, and the names
  agree once every space and hyphen is an underscore and every apostrophe is dropped.
\<close>

theorem entity_id_of_tuple:
  "(ac_name (convert_card_to_app_format x) = ac_name (convert_card_to_app_format y)
      \<and> ac_setName (convert_card_to_app_format x) = ac_setName (convert_card_to_app_format y)
      \<and> ac_cardNumber (convert_card_to_app_format x) = ac_cardNumber (convert_card_to_app_format y)
      \<and> ac_variant (convert_card_to_app_format x) = ac_variant (convert_card_to_app_format y)
      \<longrightarrow> ac_id (convert_card_to_app_format x) = ac_id (convert_card_to_app_format y))
   \<and> (ac_setName (convert_card_to_app_format x) = ac_setName (convert_card_to_app_format y)
      \<and> ac_variant (convert_card_to_app_format x) = ac_variant (convert_card_to_app_format y)
      \<longrightarrow> (ac_id (convert_card_to_app_format x) = ac_id (convert_card_to_app_format y)
            \<longleftrightarrow> number_or_zero (ac_cardNumber (convert_card_to_app_format x))
                  = number_or_zero (ac_cardNumber (convert_card_to_app_format y))
                \<and> name_part_of (ac_name (convert_card_to_app_format x))
                  = name_part_of (ac_name (convert_card_to_app_format y))))"
  unfolding ac_id_convert [of x] ac_id_convert [of y]
  by (auto simp add: card_id_of_eq_iff)

text \<open>
  The witness: the two Elsa records of \<^const>\<open>raws_dup\<close> differ (in their text) and agree
  in the four fields, and have the same ID; Elsa and Anna of \<^const>\<open>raws_two\<close> are of the
  same set and variant and differ in the name, and have different IDs.
\<close>

theorem entity_id_of_tuple_witness:
  "raws_dup ! 0 \<noteq> raws_dup ! 2
   \<and> ac_id (convert_card_to_app_format (raws_dup ! 0))
       = ac_id (convert_card_to_app_format (raws_dup ! 2))
   \<and> ac_id (convert_card_to_app_format (raws_two ! 0))
       \<noteq> ac_id (convert_card_to_app_format (raws_two ! 1))"
proof -
  let ?a = "convert_card_to_app_format (raws_dup ! 0)"
  let ?b = "convert_card_to_app_format (raws_dup ! 2)"
  let ?c = "convert_card_to_app_format (raws_two ! 0)"
  let ?d = "convert_card_to_app_format (raws_two ! 1)"
  have n: "raws_dup ! 0 \<noteq> raws_dup ! 2" by code_simp
  have t: "ac_name ?a = ac_name ?b \<and> ac_setName ?a = ac_setName ?b
           \<and> ac_cardNumber ?a = ac_cardNumber ?b \<and> ac_variant ?a = ac_variant ?b"
    by code_simp
  have s: "ac_setName ?c = ac_setName ?d \<and> ac_variant ?c = ac_variant ?d" by code_simp
  have p: "name_part_of (ac_name ?c) \<noteq> name_part_of (ac_name ?d)" by code_simp
  from entity_id_of_tuple [of "raws_dup ! 0" "raws_dup ! 2"] t have e: "ac_id ?a = ac_id ?b"
    by blast
  from entity_id_of_tuple [of "raws_two ! 0" "raws_two ! 1"] s p have d: "ac_id ?c \<noteq> ac_id ?d"
    by blast
  from n e d show ?thesis by (intro conjI)
qed

text \<open>
  The claim as it was stated fails: two records of SetA with the number 1 whose names
  differ, Mickey Mouse and Mickey-Mouse, get the same ID.
\<close>

theorem entity_id_collision_counterexample:
  "ac_name (convert_card_to_app_format (raw_example ''Mickey Mouse'' ''SetA'' (Some ''1'') ''Common''))
     \<noteq> ac_name (convert_card_to_app_format (raw_example ''Mickey-Mouse'' ''SetA'' (Some ''1'') ''Common''))
   \<and> ac_id (convert_card_to_app_format (raw_example ''Mickey Mouse'' ''SetA'' (Some ''1'') ''Common''))
       = ''SetA_1_Mickey_Mouse''
   \<and> ac_id (convert_card_to_app_format (raw_example ''Mickey-Mouse'' ''SetA'' (Some ''1'') ''Common''))
       = ''SetA_1_Mickey_Mouse''"
  by code_simp

section \<open>The round trip\<close>

lemma fold_upd_other:
  "k \<notin> kf ` set xs \<Longrightarrow> fold (\<lambda>x m. m(kf x \<mapsto> vf x)) xs m0 k = m0 k"
proof (induction xs arbitrary: m0)
  case Nil
  then show ?case by simp
next
  case (Cons x xs)
  from Cons.prems have k: "k \<notin> kf ` set xs" and n: "k \<noteq> kf x" by auto
  have "fold (\<lambda>x m. m(kf x \<mapsto> vf x)) (x # xs) m0 k
          = fold (\<lambda>x m. m(kf x \<mapsto> vf x)) xs (m0(kf x \<mapsto> vf x)) k"
    by (simp only: fold_simps o_apply)
  also have "\<dots> = (m0(kf x \<mapsto> vf x)) k" by (rule Cons.IH [OF k])
  also have "\<dots> = m0 k" using n by simp
  finally show ?case .
qed

lemma fold_upd_Some:
  "fold (\<lambda>x m. m(kf x \<mapsto> vf x)) xs m0 k = Some v \<Longrightarrow>
     m0 k = Some v \<or> (\<exists>x \<in> set xs. kf x = k \<and> vf x = v)"
proof (induction xs arbitrary: m0)
  case Nil
  then show ?case by simp
next
  case (Cons x xs)
  from Cons.prems have "fold (\<lambda>x m. m(kf x \<mapsto> vf x)) xs (m0(kf x \<mapsto> vf x)) k = Some v"
    by (simp only: fold_simps o_apply)
  from Cons.IH [OF this] show ?case
    by (auto split: if_splits)
qed

lemma fold_upd_key:
  "k \<in> kf ` set xs \<Longrightarrow> \<exists>v. fold (\<lambda>x m. m(kf x \<mapsto> vf x)) xs m0 k = Some v"
proof (induction xs arbitrary: m0)
  case Nil
  then show ?case by simp
next
  case (Cons y ys)
  have s: "fold (\<lambda>x m. m(kf x \<mapsto> vf x)) (y # ys) m0 k
          = fold (\<lambda>x m. m(kf x \<mapsto> vf x)) ys (m0(kf y \<mapsto> vf y)) k"
    by (simp only: fold_simps o_apply)
  show ?case
  proof (cases "k \<in> kf ` set ys")
    case True
    from Cons.IH [OF this] show ?thesis unfolding s .
  next
    case False
    with Cons.prems have "k = kf y" by simp
    with False show ?thesis unfolding s by (simp add: fold_upd_other)
  qed
qed

lemma fold_upd_distinct:
  "distinct (map kf xs) \<Longrightarrow> x \<in> set xs \<Longrightarrow>
     fold (\<lambda>x m. m(kf x \<mapsto> vf x)) xs m0 (kf x) = Some (vf x)"
proof (induction xs arbitrary: m0)
  case Nil
  then show ?case by simp
next
  case (Cons y ys)
  have s: "fold (\<lambda>x m. m(kf x \<mapsto> vf x)) (y # ys) m0 (kf x)
          = fold (\<lambda>x m. m(kf x \<mapsto> vf x)) ys (m0(kf y \<mapsto> vf y)) (kf x)"
    by (simp only: fold_simps o_apply)
  show ?case
  proof (cases "x \<in> set ys")
    case True
    from Cons.prems have "distinct (map kf ys)" by simp
    from Cons.IH [OF this True] show ?thesis unfolding s .
  next
    case False
    with Cons.prems have "x = y" and "kf x \<notin> kf ` set ys" by auto
    then show ?thesis unfolding s by (simp add: fold_upd_other)
  qed
qed

lemma uid_key_inj: "uid_key u = uid_key v \<longleftrightarrow> u = v"
  by (simp add: uid_key_def)

lemma load_card_uid_other:
  assumes "sc_Unique_ID s = None" and "sc_uniqueId s \<noteq> Some u"
  shows "load_card s ex (uid_key u) = ex (uid_key u)"
proof -
  have n: "uid_key u \<noteq> name_key a b" for a b by (simp add: uid_key_def name_key_def)
  have m: "uid_key u \<noteq> num_key a b" for a b by (simp add: uid_key_def num_key_def)
  show ?thesis
    using assms
    by (cases "sc_uniqueId s")
       (auto simp add: load_card_def Let_def or_str_def str_truthy_def get_default_def
          uid_key_inj n m n [symmetric] m [symmetric])
qed

lemma load_card_uid_same:
  assumes "sc_uniqueId s = Some u" and "u \<noteq> []" and "sc_name s = Some a" and "a \<noteq> []"
  shows "load_card s ex (uid_key u) = Some s"
proof -
  have n: "uid_key u \<noteq> name_key a b" for a b by (simp add: uid_key_def name_key_def)
  have m: "uid_key u \<noteq> num_key a b" for a b by (simp add: uid_key_def num_key_def)
  show ?thesis
    using assms
    by (auto simp add: load_card_def Let_def or_str_def str_truthy_def get_default_def
          n m n [symmetric] m [symmetric])
qed

lemma fold_load_uid_other:
  "\<forall>t \<in> set ts. sc_Unique_ID t = None \<and> sc_uniqueId t \<noteq> Some u \<Longrightarrow>
     fold load_card ts ex (uid_key u) = ex (uid_key u)"
  by (induction ts arbitrary: ex) (simp_all add: load_card_uid_other)

lemma fold_load_uid:
  assumes "s \<in> set ts" and "sc_uniqueId s = Some u" and "u \<noteq> []"
    and "sc_name s = Some a" and "a \<noteq> []"
    and "\<forall>t \<in> set ts. sc_Unique_ID t = None \<and> (sc_uniqueId t = Some u \<longrightarrow> t = s)"
  shows "fold load_card ts ex (uid_key u) = Some s"
  using assms(1,6)
proof (induction ts arbitrary: ex)
  case Nil
  then show ?case by simp
next
  case (Cons x xs)
  show ?case
  proof (cases "s \<in> set xs")
    case True
    with Cons show ?thesis by simp
  next
    case False
    with Cons.prems have e: "x = s"
      and o: "\<forall>t \<in> set xs. sc_Unique_ID t = None \<and> sc_uniqueId t \<noteq> Some u" by auto
    show ?thesis
      using assms(2-5) by (simp add: e fold_load_uid_other [OF o] load_card_uid_same)
  qed
qed

lemma fold_fold_concat: "fold (\<lambda>x s. fold f (g x) s) xs s0 = fold f (concat (map g xs)) s0"
  by (induction xs arbitrary: s0) simp_all

lemma load_existing_cards_concat:
  "load_existing_cards listing files
     = fold load_card (concat (map (\<lambda>filename. get_default (files filename) []) listing)) Map.empty"
  by (simp add: load_existing_cards_def fold_fold_concat)

lemma disk_after_Some:
  assumes "disk_after Map.empty r fn = Some v" and "t \<in> set v"
  shows "\<exists>f \<in> set (run_files r). v = map to_json (sd_cards (snd f))"
proof -
  from assms have n: "fn \<noteq> ''migration_map.json''"
    by (auto simp add: disk_after_def)
  with assms(1)
  have "fold (\<lambda>f d. d(fst f \<mapsto> map to_json (sd_cards (snd f)))) (run_files r) Map.empty fn = Some v"
    by (simp add: disk_after_def)
  from fold_upd_Some [OF this] show ?thesis by auto
qed

lemma disk_after_file:
  assumes "distinct (map fst (run_files r))" and "''migration_map.json'' \<notin> fst ` set (run_files r)"
    and "f \<in> set (run_files r)"
  shows "disk_after Map.empty r (fst f) = Some (map to_json (sd_cards (snd f)))"
proof -
  from assms(3) have "fst f \<in> fst ` set (run_files r)" by (rule imageI)
  with assms(2) have n: "fst f \<noteq> ''migration_map.json''" by metis
  have "fold (\<lambda>f d. d(fst f \<mapsto> map to_json (sd_cards (snd f)))) (run_files r) Map.empty (fst f)
          = Some (map to_json (sd_cards (snd f)))"
    using assms(1,3) by (rule fold_upd_distinct)
  with n show ?thesis by (simp add: disk_after_def)
qed

lemma run_all_new_cards_files:
  assumes "download_and_convert ex raws = Some r"
  shows "run_all_new_cards r = concat (map (\<lambda>f. sd_cards (snd f)) (run_files r))"
  using assms by (auto simp add: download_and_convert_def Let_def split: if_splits)

lemma rerun_same_files:
  assumes "download_and_convert ex raws = Some r"
  shows "\<exists>r'. download_and_convert ex' raws = Some r' \<and> run_files r' = run_files r
           \<and> run_all_new_cards r' = run_all_new_cards r
           \<and> run_migration_map r' = build_migration_map ex' (run_all_new_cards r)"
  using assms by (auto simp add: download_and_convert_def Let_def split: if_splits)

lemma map_of_fold_add_entry:
  assumes "\<forall>c \<in> set cs. entry_of old c = Some (ac_id c, E c)"
  shows "map_of (fold (add_entry old) cs mm) = fold (\<lambda>c m. m(ac_id c \<mapsto> E c)) cs (map_of mm)"
  using assms
proof (induction cs arbitrary: mm)
  case Nil
  then show ?case by simp
next
  case (Cons c cs)
  from Cons.prems have e: "add_entry old c mm = AList.update (ac_id c) (E c) mm"
    by (simp add: add_entry_def)
  from Cons.prems have r: "\<forall>c \<in> set cs. entry_of old c = Some (ac_id c, E c)" by simp
  have "map_of (fold (add_entry old) (c # cs) mm) = map_of (fold (add_entry old) cs (add_entry old c mm))"
    by (simp only: fold_simps o_apply)
  also have "\<dots> = fold (\<lambda>c m. m(ac_id c \<mapsto> E c)) cs (map_of (add_entry old c mm))"
    by (rule Cons.IH [OF r])
  also have "\<dots> = fold (\<lambda>c m. m(ac_id c \<mapsto> E c)) cs ((map_of mm)(ac_id c \<mapsto> E c))"
    by (simp only: e AList.update_conv')
  also have "\<dots> = fold (\<lambda>c m. m(ac_id c \<mapsto> E c)) (c # cs) (map_of mm)"
    by (simp only: fold_simps o_apply)
  finally show ?case .
qed

lemma all_new_converted:
  assumes "download_and_convert ex raws = Some r" and "c \<in> set (run_all_new_cards r)"
  shows "c \<in> convert_card_to_app_format ` set raws"
proof -
  from assms obtain f where f: "f \<in> set (run_files r)" and c: "c \<in> set (sd_cards (snd f))"
    by (auto simp add: run_all_new_cards_files)
  from run_file_cases [OF assms(1) f] c
  have "c \<in> set (dedupe (cards_of_set raws (sd_setName (snd f))))" by simp
  then show ?thesis
    by (auto simp add: set_dedupe cards_of_set_def)
qed

lemma ac_id_not_Nil: "ac_id (convert_card_to_app_format x) \<noteq> []"
  by (simp add: ac_id_convert card_id_of_def)

lemma ac_uniqueId_not_Nil: "ac_uniqueId (convert_card_to_app_format x) = Some u \<Longrightarrow> u \<noteq> []"
  by (auto simp add: ac_uniqueId_convert unique_id_of_def split: option.splits if_splits)

lemma entry_of_self:
  assumes "old (uid_key u) = Some (to_json c)" and "ac_uniqueId c = Some u" and "u \<noteq> []"
    and "ac_id c \<noteq> []"
  shows "entry_of old c =
           Some (ac_id c,
             \<lparr> me_old_id = ac_id c, me_new_id = ac_id c, me_new_unique_id = ac_uniqueId c,
               me_name = ac_name c, me_set = ac_setName c, me_variant = ac_variant c,
               me_match_method = ''uniqueId'' \<rparr>)"
proof -
  have d: "dict_truthy (to_json c)" by (simp add: dict_truthy_def to_json_def)
  have "find_old old c = (Some (to_json c), sc_id (to_json c))"
    using assms(2,3,1) d by (rule find_old_uid_hit)
  then have f: "snd (find_old old c) = Some (ac_id c)" by (simp add: to_json_def)
  have m: "match_method_of old c = ''uniqueId''"
    using assms(1-3) by (simp add: match_method_of_def str_truthy_def get_default_def)
  show ?thesis
    unfolding entry_of_def f m using assms(4) by (simp add: str_truthy_def get_default_def)
qed

lemma dom_fold_upd:
  "dom (fold (\<lambda>x m. m(kf x \<mapsto> vf x)) xs m0) = dom m0 \<union> kf ` set xs"
proof (induction xs arbitrary: m0)
  case Nil
  then show ?case by simp
next
  case (Cons x xs)
  have "dom (fold (\<lambda>x m. m(kf x \<mapsto> vf x)) (x # xs) m0)
          = dom (fold (\<lambda>x m. m(kf x \<mapsto> vf x)) xs (m0(kf x \<mapsto> vf x)))"
    by (simp only: fold_simps o_apply)
  also have "\<dots> = dom (m0(kf x \<mapsto> vf x)) \<union> kf ` set xs" by (rule Cons.IH)
  also have "\<dots> = dom m0 \<union> kf ` set (x # xs)" by auto
  finally show ?case .
qed

lemma dom_disk_after:
  "dom (disk_after Map.empty r) = insert ''migration_map.json'' (fst ` set (run_files r))"
  by (simp add: disk_after_def dom_fold_upd)

text \<open>
  C1, as the code has it. Let a run have written catalogs under file names that differ
  from each other and from \<^verbatim>\<open>migration_map.json\<close>, and let every card of its output have
  a name and a unique code that no other card of the output has. When the directory that
  the run left is loaded as the old snapshot, in any order of its files, and the same
  records are converted again, the run writes the same catalogs, and for every card of
  the output the migration map has an entry under the card's ID that maps this ID to
  itself with the match method uniqueId.
\<close>

theorem rerun_maps_to_itself:
  assumes run: "download_and_convert ex raws = Some r"
    and names: "distinct (map fst (run_files r))"
    and mig: "''migration_map.json'' \<notin> fst ` set (run_files r)"
    and listing: "set listing = dom (disk_after Map.empty r)"
    and present: "\<forall>c \<in> set (run_all_new_cards r). ac_name c \<noteq> [] \<and> ac_uniqueId c \<noteq> None"
    and unique: "\<forall>c \<in> set (run_all_new_cards r). \<forall>d \<in> set (run_all_new_cards r).
                   ac_uniqueId c = ac_uniqueId d \<longrightarrow> c = d"
  shows "\<exists>r'. download_and_convert (load_existing_cards listing (disk_after Map.empty r)) raws = Some r'
           \<and> run_files r' = run_files r
           \<and> (\<forall>c \<in> set (run_all_new_cards r').
                \<exists>e. map_of (run_migration_map r') (ac_id c) = Some e
                   \<and> me_old_id e = ac_id c \<and> me_new_id e = ac_id c
                   \<and> me_match_method e = ''uniqueId'')"
proof -
  let ?disk = "disk_after Map.empty r"
  let ?old = "load_existing_cards listing ?disk"
  let ?ts = "concat (map (\<lambda>filename. get_default (?disk filename) []) listing)"
  let ?new = "run_all_new_cards r"
  define E where "E = (\<lambda>c :: app_card. \<lparr> me_old_id = ac_id c, me_new_id = ac_id c,
               me_new_unique_id = ac_uniqueId c, me_name = ac_name c, me_set = ac_setName c,
               me_variant = ac_variant c, me_match_method = ''uniqueId'' \<rparr>)"
  have old: "?old = fold load_card ?ts Map.empty"
    by (rule load_existing_cards_concat)
  have loaded: "\<exists>d \<in> set ?new. t = to_json d" if "t \<in> set ?ts" for t
  proof -
    from that obtain fn where "t \<in> set (get_default (?disk fn) [])" by auto
    then obtain v where v: "?disk fn = Some v" and t: "t \<in> set v"
      by (cases "?disk fn") (auto simp add: get_default_def)
    from disk_after_Some [OF v t] obtain f
      where "f \<in> set (run_files r)" and "v = map to_json (sd_cards (snd f))" by auto
    with t show ?thesis
      by (auto simp add: run_all_new_cards_files [OF run])
  qed
  have stored: "to_json c \<in> set ?ts" if "c \<in> set ?new" for c
  proof -
    from that obtain f where f: "f \<in> set (run_files r)" and c: "c \<in> set (sd_cards (snd f))"
      by (auto simp add: run_all_new_cards_files [OF run])
    have d: "?disk (fst f) = Some (map to_json (sd_cards (snd f)))"
      using names mig f by (rule disk_after_file)
    then have "fst f \<in> set listing" unfolding listing by auto
    moreover from d c have "to_json c \<in> set (get_default (?disk (fst f)) [])"
      by (simp add: get_default_def)
    ultimately show ?thesis by auto
  qed
  have entry: "entry_of ?old c = Some (ac_id c, E c)" if c: "c \<in> set ?new" for c
  proof -
    from present c obtain u where u: "ac_uniqueId c = Some u" and n: "ac_name c \<noteq> []" by auto
    from all_new_converted [OF run c] obtain x where x: "c = convert_card_to_app_format x" by auto
    from u x have u0: "u \<noteq> []" using ac_uniqueId_not_Nil by simp
    from x have i: "ac_id c \<noteq> []" using ac_id_not_Nil by simp
    have o: "\<forall>t \<in> set ?ts. sc_Unique_ID t = None \<and> (sc_uniqueId t = Some u \<longrightarrow> t = to_json c)"
    proof
      fix t assume "t \<in> set ?ts"
      from loaded [OF this] obtain d where d: "d \<in> set ?new" and t: "t = to_json d" by auto
      have "t = to_json c" if "sc_uniqueId t = Some u"
      proof -
        from that t u have "ac_uniqueId c = ac_uniqueId d" by (simp add: to_json_def)
        with unique c d have "c = d" by blast
        with t show ?thesis by simp
      qed
      with t show "sc_Unique_ID t = None \<and> (sc_uniqueId t = Some u \<longrightarrow> t = to_json c)"
        by (simp add: to_json_def)
    qed
    have "fold load_card ?ts Map.empty (uid_key u) = Some (to_json c)"
    proof (rule fold_load_uid [OF stored [OF c] _ u0 _ n o])
      show "sc_uniqueId (to_json c) = Some u" using u by (simp add: to_json_def)
      show "sc_name (to_json c) = Some (ac_name c)" by (simp add: to_json_def)
    qed
    then have "?old (uid_key u) = Some (to_json c)" by (simp only: old)
    then show ?thesis unfolding E_def using u u0 i by (rule entry_of_self)
  qed
  from rerun_same_files [OF run, of ?old] obtain r'
    where r': "download_and_convert ?old raws = Some r'"
      and f': "run_files r' = run_files r"
      and n': "run_all_new_cards r' = ?new"
      and m': "run_migration_map r' = build_migration_map ?old ?new"
    by blast
  have m: "map_of (run_migration_map r') = fold (\<lambda>c m. m(ac_id c \<mapsto> E c)) ?new Map.empty"
    unfolding m' build_migration_map_def
    using map_of_fold_add_entry [of ?new ?old E "[]"] entry by simp
  have "\<exists>e. map_of (run_migration_map r') (ac_id c) = Some e
           \<and> me_old_id e = ac_id c \<and> me_new_id e = ac_id c \<and> me_match_method e = ''uniqueId''"
    if c: "c \<in> set ?new" for c
  proof -
    from c have "ac_id c \<in> ac_id ` set ?new" by (rule imageI)
    from fold_upd_key [OF this, of E Map.empty] obtain e
      where e: "fold (\<lambda>c m. m(ac_id c \<mapsto> E c)) ?new Map.empty (ac_id c) = Some e" by blast
    have "(Map.empty :: string \<rightharpoonup> migration_entry) (ac_id c) \<noteq> Some e" by simp
    with fold_upd_Some [OF e] obtain d where i: "ac_id d = ac_id c" and d: "E d = e" by blast
    have "me_old_id (E d) = ac_id d \<and> me_new_id (E d) = ac_id d
            \<and> me_match_method (E d) = ''uniqueId''"
      by (simp add: E_def)
    then have "me_old_id e = ac_id c \<and> me_new_id e = ac_id c \<and> me_match_method e = ''uniqueId''"
      unfolding d i .
    with e show ?thesis by (simp only: m) blast
  qed
  with r' f' n' show ?thesis by auto
qed

lemma first_run_raws_two:
  "map_option (\<lambda>r. (map fst (run_files r), run_all_new_cards r))
     (download_and_convert Map.empty raws_two) = Some ([''seta.json''], [card_elsa5, card_anna7])"
  by code_simp

text \<open>
  The witness: the round trip of \<^const>\<open>raws_two\<close>, whose two cards have the unique codes
  SA-005 and SA-007, maps SetA_5_Elsa to itself by uniqueId.
\<close>

theorem rerun_maps_to_itself_witness:
  "\<exists>r'. rerun listing_seta raws_two = Some r'
      \<and> map fst (run_files r') = [''seta.json'']
      \<and> run_all_new_cards r' = [card_elsa5, card_anna7]
      \<and> (\<exists>e. map_of (run_migration_map r') ''SetA_5_Elsa'' = Some e
            \<and> me_old_id e = ''SetA_5_Elsa'' \<and> me_new_id e = ''SetA_5_Elsa''
            \<and> me_match_method e = ''uniqueId'')"
proof -
  from first_run_raws_two obtain r
    where r: "download_and_convert Map.empty raws_two = Some r"
      and f: "map fst (run_files r) = [''seta.json'']"
      and n: "run_all_new_cards r = [card_elsa5, card_anna7]"
    by auto
  have h1: "distinct (map fst (run_files r))" unfolding f by simp
  have k: "fst ` set (run_files r) = {''seta.json''}"
    using f by (metis empty_set list.set_map list.simps(15))
  have h2: "''migration_map.json'' \<notin> fst ` set (run_files r)" unfolding k by simp
  have h3: "set listing_seta = dom (disk_after Map.empty r)"
    unfolding dom_disk_after k by (simp add: listing_seta_def)
  have h4: "\<forall>c \<in> set (run_all_new_cards r). ac_name c \<noteq> [] \<and> ac_uniqueId c \<noteq> None"
    unfolding n by (simp add: card_elsa5_def card_anna7_def)
  have h5: "\<forall>c \<in> set (run_all_new_cards r). \<forall>d \<in> set (run_all_new_cards r).
              ac_uniqueId c = ac_uniqueId d \<longrightarrow> c = d"
    unfolding n by (simp add: card_elsa5_def card_anna7_def)
  from rerun_maps_to_itself [OF r h1 h2 h3 h4 h5] obtain r'
    where r': "download_and_convert (load_existing_cards listing_seta (disk_after Map.empty r)) raws_two
                 = Some r'"
      and f': "run_files r' = run_files r"
      and m: "\<forall>c \<in> set (run_all_new_cards r').
                \<exists>e. map_of (run_migration_map r') (ac_id c) = Some e
                   \<and> me_old_id e = ac_id c \<and> me_new_id e = ac_id c
                   \<and> me_match_method e = ''uniqueId''"
    by blast
  have n': "run_all_new_cards r' = [card_elsa5, card_anna7]"
    unfolding run_all_new_cards_files [OF r'] f'
    using n unfolding run_all_new_cards_files [OF r] .
  have i: "ac_id card_elsa5 = ''SetA_5_Elsa''" by (simp add: card_elsa5_def)
  from m n' have "\<exists>e. map_of (run_migration_map r') (ac_id card_elsa5) = Some e
                   \<and> me_old_id e = ac_id card_elsa5 \<and> me_new_id e = ac_id card_elsa5
                   \<and> me_match_method e = ''uniqueId''"
    by simp
  then have e: "\<exists>e. map_of (run_migration_map r') ''SetA_5_Elsa'' = Some e
                   \<and> me_old_id e = ''SetA_5_Elsa'' \<and> me_new_id e = ''SetA_5_Elsa''
                   \<and> me_match_method e = ''uniqueId''"
    unfolding i .
  have "rerun listing_seta raws_two = Some r'"
    by (simp add: rerun_def r r')
  with f f' n' e show ?thesis by simp
qed

text \<open>
  The claim as it was stated fails: in the round trip of \<^const>\<open>raws_dup\<close> the card of
  Anna, who has no collector number and so no unique code, is in the output and is mapped
  to itself by the match method name+set.
\<close>

theorem rerun_without_unique_code_counterexample:
  "map_option (\<lambda>r. map ac_id (run_all_new_cards r)) (rerun listing_seta raws_dup)
     = Some [''SetA_0_Anna'', ''SetA_5_Elsa'']
   \<and> map_option methods_of (rerun listing_seta raws_dup)
     = Some [(''SetA_0_Anna'', ''SetA_0_Anna'', ''name+set''),
             (''SetA_5_Elsa'', ''SetA_5_Elsa'', ''uniqueId'')]"
  by code_simp

end
